theory Spec2Isabelle
  imports Complex_Main
begin

section \<open>JavaScript numbers\<close>

text \<open>
  The rate-limit decision carries two JavaScript numbers.  The handler multiplies one of
  them (\<open>retryAfter * 60\<close>) and turns both into text (\<open>remaining.toString()\<close> and
  the concatenation with \<open>" seconds"\<close>), so numbers are embedded as what they are, IEEE 754
  doubles: \<open>NaN\<close>, the two infinities, negative zero, or a finite value, held as the
  rational it denotes (\<open>Fin 0\<close> is positive zero).  Arithmetic is exact arithmetic on
  rationals followed by \<open>fl\<close>, rounding to the nearest double with ties to the even
  significand; the finite numbers that occur are results of \<open>fl\<close>.
\<close>

datatype number = NaN | PosInfinity | NegInfinity | NegZero | Fin rat

definition pow2 :: "int \<Rightarrow> rat" where
  "pow2 e = (if 0 \<le> e then 2 ^ nat e else 1 / 2 ^ nat (- e))"

definition pow10 :: "int \<Rightarrow> rat" where
  "pow10 e = (if 0 \<le> e then 10 ^ nat e else 1 / 10 ^ nat (- e))"

text \<open>The number of binary digits of a positive integer.\<close>

function bits :: "int \<Rightarrow> nat" where
  "bits n = (if n \<le> 0 then 0 else Suc (bits (n div 2)))"
  by pat_completeness auto
termination
  by (relation "measure nat") auto

declare bits.simps [simp del]

text \<open>For \<open>a > 0\<close>, the exponent \<open>e\<close> with \<open>2^e \<le> a < 2^(e+1)\<close>.\<close>

definition ilog2 :: "rat \<Rightarrow> int" where
  "ilog2 a =
     (if 1 \<le> a then int (bits \<lfloor>a\<rfloor>) - 1
      else
        let c = int (bits \<lfloor>1 / a\<rfloor>) - 1
        in if pow2 c = 1 / a then - c else - c - 1)"

definition round_half_even :: "rat \<Rightarrow> int" where
  "round_half_even r =
     (let f = \<lfloor>r\<rfloor>; d = r - of_int f
      in if d < 1 / 2 then f else if 1 / 2 < d then f + 1 else if even f then f else f + 1)"

text \<open>
  Rounding a rational to a double: 53 significant bits, the spacing of the subnormal
  range below \<open>2^-1022\<close>, overflow to an infinity from \<open>2^1024\<close> on, underflow to a zero
  that keeps the sign.
\<close>

definition fl :: "rat \<Rightarrow> number" where
  "fl q =
     (if q = 0 then Fin 0
      else
        let a = \<bar>q\<bar>;
            e = max (ilog2 a) (- 1022) - 52;
            r = of_int (round_half_even (a / pow2 e)) * pow2 e
        in if pow2 1024 \<le> r then (if q < 0 then NegInfinity else PosInfinity)
           else if r = 0 then (if q < 0 then NegZero else Fin 0)
           else Fin (if q < 0 then - r else r))"

text \<open>An integer as a number, as a numeric literal denotes it.\<close>

definition Number :: "int \<Rightarrow> number" where
  "Number i = fl (of_int i)"

text \<open>The numbers that are doubles: every special value, and the finite values that
  rounding leaves as they are.\<close>

definition is_double :: "number \<Rightarrow> bool" where
  "is_double x = (case x of Fin q \<Rightarrow> fl q = Fin q | _ \<Rightarrow> True)"

definition negative :: "number \<Rightarrow> bool" where
  "negative x =
     (case x of NaN \<Rightarrow> False | PosInfinity \<Rightarrow> False | NegInfinity \<Rightarrow> True
      | NegZero \<Rightarrow> True | Fin q \<Rightarrow> q < 0)"

definition is_zero :: "number \<Rightarrow> bool" where
  "is_zero x = (x = NegZero \<or> x = Fin 0)"

definition is_infinite :: "number \<Rightarrow> bool" where
  "is_infinite x = (x = PosInfinity \<or> x = NegInfinity)"

definition signed_zero :: "bool \<Rightarrow> number" where
  "signed_zero neg = (if neg then NegZero else Fin 0)"

definition signed_infinity :: "bool \<Rightarrow> number" where
  "signed_infinity neg = (if neg then NegInfinity else PosInfinity)"

text \<open>The product \<open>x * y\<close> of two numbers.\<close>

definition times_number :: "number \<Rightarrow> number \<Rightarrow> number" where
  "times_number x y =
     (if x = NaN \<or> y = NaN then NaN
      else if is_infinite x \<or> is_infinite y then
        (if is_zero x \<or> is_zero y then NaN
         else signed_infinity (negative x \<noteq> negative y))
      else if is_zero x \<or> is_zero y then signed_zero (negative x \<noteq> negative y)
      else
        (case (x, y) of
           (Fin p, Fin q) \<Rightarrow> fl (p * q)
         | _ \<Rightarrow> NaN))"

subsection \<open>Number to string\<close>

definition digit :: "int \<Rightarrow> char" where
  "digit n = ''0123456789'' ! nat (n mod 10)"

text \<open>The decimal digits of a non-negative integer.\<close>

function decimal :: "int \<Rightarrow> string" where
  "decimal n = (if n < 10 then [digit n] else decimal (n div 10) @ [digit (n mod 10)])"
  by pat_completeness auto
termination
  by (relation "measure nat") auto

declare decimal.simps [simp del]

text \<open>For \<open>a > 0\<close>, the exponent \<open>n\<close> with \<open>10^(n-1) \<le> a < 10^n\<close>.\<close>

definition decimal_exponent :: "rat \<Rightarrow> int" where
  "decimal_exponent a =
     (if 1 \<le> a then int (length (decimal \<lfloor>a\<rfloor>))
      else
        let l = int (length (decimal \<lfloor>1 / a\<rfloor>))
        in if a = pow10 (1 - l) then 2 - l else 1 - l)"

text \<open>
  The digits \<open>s\<close> of a \<open>k\<close>-digit decimal \<open>s * 10^(n-k)\<close> that rounds to \<open>a\<close>, when
  there is one: of the two neighbours of \<open>a\<close> at that precision the closer one, the even
  one when they are equally close.
\<close>

definition digits_at :: "rat \<Rightarrow> int \<Rightarrow> nat \<Rightarrow> int option" where
  "digits_at a n k =
     (let scale = pow10 (n - int k);
          lo = \<lfloor>a / scale\<rfloor>;
          c_lo = of_int lo * scale;
          c_hi = of_int (lo + 1) * scale;
          ok_lo = (fl c_lo = Fin a);
          ok_hi = (fl c_hi = Fin a)
      in if ok_lo \<and> ok_hi then
           (if a - c_lo < c_hi - a then Some lo
            else if c_hi - a < a - c_lo then Some (lo + 1)
            else if even lo then Some lo else Some (lo + 1))
         else if ok_lo then Some lo
         else if ok_hi then Some (lo + 1)
         else None)"

text \<open>The first precision, among those listed, at which there are such digits.\<close>

fun shortest :: "rat \<Rightarrow> int \<Rightarrow> nat list \<Rightarrow> int \<times> nat" where
  "shortest a n [] = (\<lfloor>a / pow10 (n - 17)\<rfloor>, 17)"
| "shortest a n (k # ks) =
     (case digits_at a n k of Some s \<Rightarrow> (s, k) | None \<Rightarrow> shortest a n ks)"

definition zeros :: "nat \<Rightarrow> string" where
  "zeros j = replicate j CHR ''0''"

text \<open>
  The text of \<open>s * 10^(n-k)\<close>, \<open>s\<close> having \<open>k\<close> digits: plain digits up to 21 integer
  digits, a decimal point inside or up to six zeros in front, an exponent otherwise.
\<close>

definition layout :: "int \<Rightarrow> nat \<Rightarrow> int \<Rightarrow> string" where
  "layout s k n =
     (let ds = decimal s in
      if int k \<le> n \<and> n \<le> 21 then ds @ zeros (nat (n - int k))
      else if 0 < n \<and> n \<le> 21 then take (nat n) ds @ ''.'' @ drop (nat n) ds
      else if - 6 < n \<and> n \<le> 0 then ''0.'' @ zeros (nat (- n)) @ ds
      else
        (if k = 1 then ds else take 1 ds @ ''.'' @ drop 1 ds)
        @ ''e'' @ (if 0 \<le> n - 1 then ''+'' else ''-'') @ decimal \<bar>n - 1\<bar>)"

definition positive_toString :: "rat \<Rightarrow> string" where
  "positive_toString a =
     (let n = decimal_exponent a in
      case shortest a n [1..<18] of
        (s, k) \<Rightarrow> if s = 10 ^ k then layout (10 ^ (k - 1)) k (n + 1) else layout s k n)"

text \<open>
  \<open>x.toString()\<close>, which is also how \<open>x + " seconds"\<close> renders \<open>x\<close>: the shortest
  decimal that reads back as the same double.
\<close>

definition Number_toString :: "number \<Rightarrow> string" where
  "Number_toString x =
     (case x of
        NaN \<Rightarrow> ''NaN''
      | PosInfinity \<Rightarrow> ''Infinity''
      | NegInfinity \<Rightarrow> ''-Infinity''
      | NegZero \<Rightarrow> ''0''
      | Fin q \<Rightarrow>
          if q = 0 then ''0''
          else if q < 0 then ''-'' @ positive_toString (- q)
          else positive_toString q)"

section \<open>Values exchanged by the middlewares\<close>

text \<open>
  The two middleware modules of the backend (the rate-limit middleware and the
  authentication middleware with its verified-email gate) are Express handlers: each takes
  the request, the response under construction and the continuation \<open>next\<close>.  The
  embedding threads one value holding the request, the response and the ordered list of
  effects the handler performed; the use case, the token verifier and the user repository
  are parameters whose awaited result is either a thrown value (\<open>Inl\<close>) or the value
  returned (\<open>Inr\<close>).
\<close>

datatype json = JStr string | JNum number | JBool bool | JUndefined

type_synonym json_object = "(string \<times> json) list"

text \<open>What a \<open>catch (error)\<close> clause can receive: an \<open>Error\<close> instance with its
  message and optional stack, or any other thrown value.\<close>

datatype thrown = ErrorObject string "string option" | ThrownValue json

text \<open>The user attached to the request by the auth middleware (\<open>req.user\<close>).\<close>

record authenticated_user =
  au_id :: string
  au_email :: string
  au_role :: string
  au_isVerified :: bool

text \<open>The parts of the Express request the handlers read: \<open>req.headers.authorization\<close>,
  \<open>req.ip\<close>, \<open>req.path\<close>, \<open>req.method\<close> (field \<open>req_method\<close>), \<open>req.traceId\<close>
  and \<open>req.user\<close>.\<close>

record request =
  authorization :: "string option"
  ip :: "string option"
  path :: string
  req_method :: string
  traceId :: "string option"
  user :: "authenticated_user option"

record response =
  headers :: "string \<rightharpoonup> string"
  statusCode :: nat
  body :: "json_object option"

text \<open>
  The effects of a handler, in the order they happen: calls of the collaborators, log
  lines, the calls on the response, and the calls of \<open>next\<close>.  The calls on the response
  and of \<open>next\<close> are taken to return normally.
\<close>

datatype event =
    CheckRateLimitCalled
  | JwtVerifyCalled string string
  | FindByIdCalled string
  | IsUserVerifiedCalled string
  | ConsoleLog "json list"
  | ConsoleError string thrown
  | LoggerWarn string json_object
  | LoggerError string json_object
  | SetHeader string string
  | Status nat
  | Json json_object
  | Next
  | NextError thrown

record exchange =
  req :: request
  res :: response
  trace :: "event list"

definition emit :: "event \<Rightarrow> exchange \<Rightarrow> exchange" where
  "emit e x = x\<lparr>trace := trace x @ [e]\<rparr>"

text \<open>\<open>res.setHeader(name, value)\<close>\<close>

definition setHeader :: "string \<Rightarrow> string \<Rightarrow> exchange \<Rightarrow> exchange" where
  "setHeader k v x =
     emit (SetHeader k v) (x\<lparr>res := (res x)\<lparr>headers := (headers (res x))(k \<mapsto> v)\<rparr>\<rparr>)"

text \<open>\<open>res.status(code)\<close>\<close>

definition status :: "nat \<Rightarrow> exchange \<Rightarrow> exchange" where
  "status code x = emit (Status code) (x\<lparr>res := (res x)\<lparr>statusCode := code\<rparr>\<rparr>)"

text \<open>\<open>res.json(obj)\<close>\<close>

definition send_json :: "json_object \<Rightarrow> exchange \<Rightarrow> exchange" where
  "send_json obj x = emit (Json obj) (x\<lparr>res := (res x)\<lparr>body := Some obj\<rparr>\<rparr>)"

text \<open>\<open>next()\<close> and \<open>next(error)\<close>\<close>

definition call_next :: "exchange \<Rightarrow> exchange" where
  "call_next x = emit Next x"

definition call_next_error :: "thrown \<Rightarrow> exchange \<Rightarrow> exchange" where
  "call_next_error error x = emit (NextError error) x"

subsection \<open>JavaScript conversions the handlers rely on\<close>

text \<open>A value of type \<open>string | undefined\<close> is truthy when it is a non-empty string.\<close>

definition truthy :: "string option \<Rightarrow> bool" where
  "truthy s = (case s of None \<Rightarrow> False | Some t \<Rightarrow> t \<noteq> [])"

text \<open>An optional value as a property of a logged object.\<close>

definition opt_json :: "string option \<Rightarrow> json" where
  "opt_json s = (case s of None \<Rightarrow> JUndefined | Some t \<Rightarrow> JStr t)"

text \<open>An optional string inside a template literal.\<close>

definition template :: "string option \<Rightarrow> string" where
  "template s = (case s of None \<Rightarrow> ''undefined'' | Some t \<Rightarrow> t)"

text \<open>\<open>...(req.traceId && { traceId: req.traceId })\<close>: spreading \<open>undefined\<close> or
  the empty string adds no property.\<close>

definition spread_traceId :: "request \<Rightarrow> json_object" where
  "spread_traceId r =
     (case traceId r of
        None \<Rightarrow> []
      | Some t \<Rightarrow> if t \<noteq> [] then [(''traceId'', JStr t)] else [])"

text \<open>\<open>s.split(" ")\<close>: one more segment than there are separators; the empty string
  splits into one empty segment.\<close>

fun split_on :: "char \<Rightarrow> string \<Rightarrow> string list" where
  "split_on c [] = [[]]"
| "split_on c (a # s) =
     (if a = c then [] # split_on c s
      else (case split_on c s of [] \<Rightarrow> [[a]] | seg # segs \<Rightarrow> (a # seg) # segs))"

text \<open>Indexing an array: \<open>undefined\<close> beyond its length.\<close>

definition at_index :: "'a list \<Rightarrow> nat \<Rightarrow> 'a option" where
  "at_index xs i = (if i < length xs then Some (xs ! i) else None)"

section \<open>Rate-limit middleware\<close>

text \<open>
  Modelled from the spec: the \<open>RateLimitDecision\<close> returned by
  \<open>RateLimitUseCase.checkRateLimit\<close>, whose declaration is not among the sources;
  the handler destructures \<open>allowed\<close>, \<open>remaining\<close> and \<open>retryAfter\<close> from it.  Both
  numeric fields are JavaScript numbers: nothing in the handler restricts them to
  integers.
\<close>

record rate_limit_decision =
  allowed :: bool
  remaining :: number
  retryAfter :: number

type_synonym rate_limit_use_case = "request \<Rightarrow> thrown + rate_limit_decision"

definition exceeded_meta :: "rate_limit_decision \<Rightarrow> request \<Rightarrow> json_object" where
  "exceeded_meta d r =
     [(''remaining'', JNum (remaining d)),
      (''retryAfter'', JNum (retryAfter d)),
      (''ip'', opt_json (ip r)),
      (''path'', JStr (path r)),
      (''traceId'', opt_json (traceId r))]"

definition too_many_requests :: "rate_limit_decision \<Rightarrow> request \<Rightarrow> json_object" where
  "too_many_requests d r =
     [(''error'', JStr ''Too Many Requests''),
      (''message'', JStr ''You have exceeded the rate limit. Please try again later.''),
      (''retryAfter'',
       JStr (Number_toString (times_number (retryAfter d) (Number 60)) @ '' seconds''))]
     @ spread_traceId r"

definition failed_meta :: "thrown \<Rightarrow> request \<Rightarrow> json_object" where
  "failed_meta error r =
     [(''error'', (case error of ErrorObject m s \<Rightarrow> JStr m | ThrownValue v \<Rightarrow> v)),
      (''stack'', (case error of ErrorObject m s \<Rightarrow> opt_json s | ThrownValue v \<Rightarrow> JUndefined)),
      (''path'', JStr (path r)),
      (''method'', JStr (req_method r)),
      (''ip'', opt_json (ip r)),
      (''traceId'', opt_json (traceId r))]"

definition rateLimiter :: "rate_limit_use_case \<Rightarrow> exchange \<Rightarrow> exchange" where
  "rateLimiter checkRateLimit x =
     (case checkRateLimit (req x) of
        Inr d \<Rightarrow>
          (let x1 = emit (ConsoleLog [JBool (allowed d), JNum (remaining d)])
                      (emit CheckRateLimitCalled x);
               x2 = setHeader ''X-RateLimit-Remaining'' (Number_toString (remaining d)) x1
           in if \<not> allowed d then
                send_json (too_many_requests d (req x))
                  (status 429
                    (emit (LoggerWarn
                             (''Rate limit exceeded for '' @ template (ip (req x))
                                @ '' on '' @ path (req x))
                             (exceeded_meta d (req x))) x2))
              else call_next x2)
      | Inl error \<Rightarrow>
          call_next_error error
            (emit (LoggerError ''Rate limit check failed'' (failed_meta error (req x)))
               (emit CheckRateLimitCalled x)))"

section \<open>Authentication middleware\<close>

text \<open>The claims of a verified token: \<open>jwt.verify(token, SECRET_KEY) as {id, role}\<close>.\<close>

record decoded_user =
  decoded_id :: string
  decoded_role :: string

text \<open>The columns of the live user record that the middleware reads.\<close>

record user_record =
  user_id :: string
  user_email :: string
  user_role :: string
  user_isVerified :: bool

text \<open>
  The module-level collaborators: the environment variable \<open>JWT_SECRET\<close>,
  \<open>jwt.verify\<close>, and the repository's \<open>findById\<close> and \<open>isUserVerified\<close>.
\<close>

record auth_env =
  JWT_SECRET :: "string option"
  jwt_verify :: "string \<Rightarrow> string \<Rightarrow> thrown + decoded_user"
  findById :: "string \<Rightarrow> thrown + user_record option"
  isUserVerified :: "string \<Rightarrow> thrown + bool"

text \<open>\<open>process.env.JWT_SECRET || "defaultSecret"\<close>\<close>

definition SECRET_KEY :: "auth_env \<Rightarrow> string" where
  "SECRET_KEY env = (if truthy (JWT_SECRET env) then template (JWT_SECRET env) else ''defaultSecret'')"

text \<open>\<open>req.headers.authorization?.split(" ")[1]\<close>\<close>

definition bearer_token :: "request \<Rightarrow> string option" where
  "bearer_token r =
     (case authorization r of
        None \<Rightarrow> None
      | Some h \<Rightarrow> at_index (split_on CHR '' '' h) 1)"

definition no_token_provided :: "exchange \<Rightarrow> exchange" where
  "no_token_provided x = send_json [(''message'', JStr ''No token provided'')] (status 401 x)"

text \<open>The \<open>catch\<close> clause of the auth middleware.\<close>

definition invalid_token :: "exchange \<Rightarrow> exchange" where
  "invalid_token x = send_json [(''message'', JStr ''Invalid token'')] (status 401 x)"

definition attach_user :: "authenticated_user \<Rightarrow> exchange \<Rightarrow> exchange" where
  "attach_user u x = x\<lparr>req := (req x)\<lparr>user := Some u\<rparr>\<rparr>"

definition authMiddleware :: "auth_env \<Rightarrow> exchange \<Rightarrow> exchange" where
  "authMiddleware env x =
     (case bearer_token (req x) of
        None \<Rightarrow> no_token_provided x
      | Some token \<Rightarrow>
          if token = [] then no_token_provided x
          else
            (case jwt_verify env token (SECRET_KEY env) of
               Inl error \<Rightarrow> invalid_token (emit (JwtVerifyCalled token (SECRET_KEY env)) x)
             | Inr decoded \<Rightarrow>
                 (let x1 = emit (FindByIdCalled (decoded_id decoded))
                             (emit (JwtVerifyCalled token (SECRET_KEY env)) x)
                  in case findById env (decoded_id decoded) of
                       Inl error \<Rightarrow> invalid_token x1
                     | Inr None \<Rightarrow>
                         send_json [(''message'', JStr ''User not found'')] (status 401 x1)
                     | Inr (Some u) \<Rightarrow>
                         if \<not> user_isVerified u then
                           send_json
                             [(''message'',
                               JStr ''Email not verified. Please verify your email to proceed.'')]
                             (status 403 x1)
                         else
                           call_next
                             (attach_user
                                \<lparr>au_id = user_id u, au_email = user_email u,
                                 au_role = decoded_role decoded,
                                 au_isVerified = user_isVerified u\<rparr> x1))))"

section \<open>Verified-email gate\<close>

definition requireVerifiedEmail :: "auth_env \<Rightarrow> exchange \<Rightarrow> exchange" where
  "requireVerifiedEmail env x =
     (case user (req x) of
        None \<Rightarrow>
          send_json [(''message'', JStr ''Unauthorized - Authentication required'')]
            (status 401 x)
      | Some u \<Rightarrow>
          (let x1 = emit (IsUserVerifiedCalled (au_id u)) x
           in case isUserVerified env (au_id u) of
                Inl error \<Rightarrow>
                  send_json
                    ([(''message'', JStr ''Internal server error'')] @ spread_traceId (req x))
                    (status 500
                       (emit (ConsoleError ''Error checking email verification status:'' error)
                          x1))
              | Inr isVerified \<Rightarrow>
                  if \<not> isVerified then
                    send_json
                      [(''message'', JStr ''Forbidden - Email verification required''),
                       (''verificationNeeded'', JBool True)]
                      (status 403 x1)
                  else call_next (attach_user (u\<lparr>au_isVerified := True\<rparr>) x1)))"

section \<open>Sample requests and collaborators\<close>

text \<open>A fresh response: no header, status 200, nothing sent.\<close>

definition fresh_response :: response where
  "fresh_response = \<lparr>headers = Map.empty, statusCode = 200, body = None\<rparr>"

definition incoming :: "string option \<Rightarrow> string option \<Rightarrow> exchange" where
  "incoming auth tid =
     \<lparr>req = \<lparr>authorization = auth, ip = Some ''10.0.0.7'', path = ''/auth/login'',
             req_method = ''POST'', traceId = tid, user = None\<rparr>,
      res = fresh_response, trace = []\<rparr>"

text \<open>A verifier that accepts three tokens, and a user table with a verified user
  \<open>u1\<close> (whose stored role is not the one in the token), an unverified user \<open>u2\<close> and
  no user \<open>u3\<close>.\<close>

definition sample_verify :: "string \<Rightarrow> string \<Rightarrow> thrown + decoded_user" where
  "sample_verify token secret =
     (if token = ''tok-u1'' then Inr \<lparr>decoded_id = ''u1'', decoded_role = ''admin''\<rparr>
      else if token = ''tok-u2'' then Inr \<lparr>decoded_id = ''u2'', decoded_role = ''volunteer''\<rparr>
      else if token = ''tok-u3'' then Inr \<lparr>decoded_id = ''u3'', decoded_role = ''volunteer''\<rparr>
      else Inl (ErrorObject ''jwt malformed'' None))"

definition sample_findById :: "string \<Rightarrow> thrown + user_record option" where
  "sample_findById uid =
     (if uid = ''u1'' then
        Inr (Some \<lparr>user_id = ''u1'', user_email = ''ana@example.org'',
                   user_role = ''volunteer'', user_isVerified = True\<rparr>)
      else if uid = ''u2'' then
        Inr (Some \<lparr>user_id = ''u2'', user_email = ''luis@example.org'',
                   user_role = ''volunteer'', user_isVerified = False\<rparr>)
      else Inr None)"

definition env_live :: auth_env where
  "env_live =
     \<lparr>JWT_SECRET = None, jwt_verify = sample_verify, findById = sample_findById,
      isUserVerified = (\<lambda>uid. Inr (uid = ''u1''))\<rparr>"

definition env_lookup_down :: auth_env where
  "env_lookup_down =
     \<lparr>JWT_SECRET = None, jwt_verify = sample_verify,
      findById = (\<lambda>uid. Inl (ErrorObject ''database unreachable'' None)),
      isUserVerified = (\<lambda>uid. Inl (ErrorObject ''database unreachable'' None))\<rparr>"

definition with_user :: "authenticated_user \<Rightarrow> string option \<Rightarrow> exchange" where
  "with_user u tid = attach_user u (incoming None tid)"

definition deny_for :: "number \<Rightarrow> rate_limit_use_case" where
  "deny_for minutes r = Inr \<lparr>allowed = False, remaining = Number 0, retryAfter = minutes\<rparr>"

definition allow_with :: "number \<Rightarrow> rate_limit_use_case" where
  "allow_with left r = Inr \<lparr>allowed = True, remaining = left, retryAfter = Number 0\<rparr>"

definition store_down :: rate_limit_use_case where
  "store_down r = Inl (ErrorObject ''Redis connection lost'' None)"

section \<open>Observing one handler run\<close>

text \<open>The effects a handler added to the trace, given the exchange before and after.\<close>

definition performed :: "exchange \<Rightarrow> exchange \<Rightarrow> event list" where
  "performed before after = drop (length (trace before)) (trace after)"

section \<open>The token as the substring after the first space\<close>

text \<open>
  A second reading of the token, the one to compare \<open>bearer_token\<close> with: everything
  that follows the first space of the header, and nothing when the header has no space.
\<close>

definition after_first_space :: "string \<Rightarrow> string option" where
  "after_first_space h =
     (if CHR '' '' \<in> set h then Some (tl (dropWhile (\<lambda>c. c \<noteq> CHR '' '') h)) else None)"

section \<open>Integers as text\<close>

text \<open>
  What it means for a text to be an integer, and which one: \<open>integer_text\<close> writes an
  integer in decimal digits with a minus sign when negative, \<open>is_integer_text\<close>
  recognises such texts, and \<open>parse_int\<close> reads the integer back.  These are the terms
  in which the rendered remaining count and retry delay are compared with the claims.
\<close>

definition integer_text :: "int \<Rightarrow> string" where
  "integer_text i = (if i < 0 then CHR ''-'' # decimal (- i) else decimal i)"

definition digit_value :: "char \<Rightarrow> int" where
  "digit_value c = of_char c - 48"

definition digits_value :: "string \<Rightarrow> int" where
  "digits_value s = foldl (\<lambda>a c. 10 * a + digit_value c) 0 s"

definition parse_int :: "string \<Rightarrow> int" where
  "parse_int s =
     (case s of
        [] \<Rightarrow> 0
      | c # r \<Rightarrow> if c = CHR ''-'' then - digits_value r else digits_value s)"

definition is_digit :: "char \<Rightarrow> bool" where
  "is_digit c = (c \<in> set ''0123456789'')"

definition is_integer_text :: "string \<Rightarrow> bool" where
  "is_integer_text s =
     (case s of
        [] \<Rightarrow> False
      | c # r \<Rightarrow> if c = CHR ''-'' then r \<noteq> [] \<and> list_all is_digit r else list_all is_digit s)"

section \<open>Auxiliary facts\<close>

lemmas effect_defs = emit_def setHeader_def status_def send_json_def call_next_def
  call_next_error_def

lemma bits_bounds: "0 < n \<Longrightarrow> 2 ^ (bits n - 1) \<le> n \<and> n < 2 ^ bits n"
proof (induction n rule: bits.induct)
  case (1 n)
  show ?case
  proof (cases "n = 1")
    case True
    then show ?thesis by (simp add: bits.simps)
  next
    case False
    with "1.prems" have pos: "0 < n div 2" by simp
    with "1.IH" "1.prems" have ih: "2 ^ (bits (n div 2) - 1) \<le> n div 2" "n div 2 < 2 ^ bits (n div 2)"
      by simp_all
    from pos have b: "0 < bits (n div 2)" by (subst bits.simps) simp
    have eq: "bits n = Suc (bits (n div 2))" using "1.prems" by (subst bits.simps) simp
    from b have p: "(2::int) ^ (bits n - 1) = 2 * 2 ^ (bits (n div 2) - 1)"
      by (cases "bits (n div 2)") (simp_all add: eq)
    from ih show ?thesis unfolding p by (simp add: eq) linarith
  qed
qed

lemma ilog2_of_int: "0 < n \<Longrightarrow> ilog2 (of_int n) = int (bits n) - 1"
  by (simp add: ilog2_def)

lemma round_half_even_of_int: "round_half_even (of_int z) = z"
  by (simp add: round_half_even_def)


lemma pow2_nonneg: "0 \<le> e \<Longrightarrow> pow2 e = 2 ^ nat e"
  by (simp add: pow2_def)

lemma pow2_neg: "e \<le> 0 \<Longrightarrow> pow2 e = 1 / 2 ^ nat (- e)"
  by (cases "e = 0") (simp_all add: pow2_def)

lemma fl_exact:
  assumes m: "0 < m" "m < 2 ^ 53" and j: "j \<le> 900"
    and q: "\<bar>q\<bar> = of_int (m * 2 ^ j)"
  shows "fl q = Fin q"
proof -
  define a where "a = m * 2 ^ j"
  have apos: "0 < a" using m by (simp add: a_def)
  have qa: "\<bar>q\<bar> = of_int a" using q by (simp add: a_def)
  with apos have q0: "q \<noteq> 0" by auto
  from bits_bounds [OF apos] have lo: "2 ^ (bits a - 1) \<le> a" and hi: "a < 2 ^ bits a"
    by simp_all
  from apos have bpos: "0 < bits a" by (subst bits.simps) simp
  define e where "e = int (bits a) - 53"
  have "ilog2 \<bar>q\<bar> = int (bits a) - 1" using apos by (simp add: qa ilog2_of_int)
  with bpos have emax: "max (ilog2 \<bar>q\<bar>) (- 1022) - 52 = e" by (simp add: e_def)
  have "a < 2 ^ 53 * 2 ^ j" using m by (simp add: a_def)
  then have abound: "a < 2 ^ (53 + j)" by (simp add: power_add)
  with lo have "(2::int) ^ (bits a - 1) < 2 ^ (53 + j)" by linarith
  then have bj: "bits a - 1 < 53 + j" by simp
  have ex: "\<exists>z. of_int a / pow2 e = of_int z \<and> of_int z * pow2 e = (of_int a :: rat)"
  proof (cases "e \<le> 0")
    case True
    then have "pow2 e = 1 / 2 ^ nat (- e)" by (rule pow2_neg)
    then have "of_int a / pow2 e = of_int (a * 2 ^ nat (- e))
        \<and> of_int (a * 2 ^ nat (- e)) * pow2 e = (of_int a :: rat)"
      by simp
    then show ?thesis by blast
  next
    case False
    then have epos: "0 < e" by simp
    then have p: "pow2 e = 2 ^ nat e" by (simp add: pow2_nonneg)
    from epos bj have "nat e \<le> j" by (simp add: e_def)
    then have "(2::int) ^ nat e dvd 2 ^ j" by (rule le_imp_power_dvd)
    then have "(2::int) ^ nat e dvd a" by (simp add: a_def)
    then obtain z where z: "a = 2 ^ nat e * z" by (auto simp: dvd_def)
    have "of_int a / pow2 e = of_int z \<and> of_int z * pow2 e = (of_int a :: rat)"
      by (simp add: p z)
    then show ?thesis by blast
  qed
  then obtain z where z: "of_int a / pow2 e = of_int z" "of_int z * pow2 e = (of_int a :: rat)"
    by blast
  have "53 + j \<le> 1024" using j by simp
  then have "(2::int) ^ (53 + j) \<le> 2 ^ 1024" by (rule power_increasing) simp
  with abound have "a < 2 ^ 1024" by linarith
  then have "(of_int a :: rat) < of_int (2 ^ 1024)" by (simp only: of_int_less_iff)
  then have small: "\<not> pow2 1024 \<le> (of_int a :: rat)" by (simp add: pow2_def)
  have r: "of_int (round_half_even (\<bar>q\<bar> / pow2 e)) * pow2 e = \<bar>q\<bar>"
    by (simp only: qa z round_half_even_of_int)
  from apos have nz: "(of_int a :: rat) \<noteq> 0" by simp
  have "fl q =
      (if pow2 1024 \<le> \<bar>q\<bar> then (if q < 0 then NegInfinity else PosInfinity)
       else if \<bar>q\<bar> = 0 then (if q < 0 then NegZero else Fin 0)
       else Fin (if q < 0 then - \<bar>q\<bar> else \<bar>q\<bar>))"
    by (simp only: fl_def Let_def emax r q0 if_False)
  also have "\<dots> = Fin (if q < 0 then - \<bar>q\<bar> else \<bar>q\<bar>)"
    using small nz by (simp only: qa if_False)
  also have "\<dots> = Fin q" by simp
  finally show ?thesis .
qed


lemma fl_int:
  assumes "i \<noteq> 0" and "\<bar>i\<bar> \<le> 2 ^ 53"
  shows "fl (of_int i) = Fin (of_int i)"
proof (cases "\<bar>i\<bar> = 2 ^ 53")
  case True
  have "\<bar>of_int i :: rat\<bar> = of_int \<bar>i\<bar>" by simp
  also have "\<dots> = of_int (1 * 2 ^ 53)" using True by simp
  finally show ?thesis by (intro fl_exact [of 1 53]) simp_all
next
  case False
  with assms have "0 < \<bar>i\<bar>" "\<bar>i\<bar> < 2 ^ 53" by simp_all
  moreover have "\<bar>of_int i :: rat\<bar> = of_int (\<bar>i\<bar> * 2 ^ 0)" by simp
  ultimately show ?thesis by (intro fl_exact [of "\<bar>i\<bar>" 0]) simp_all
qed

lemma Number_exact: "\<bar>i\<bar> \<le> 2 ^ 53 \<Longrightarrow> Number i = Fin (of_int i)"
  by (cases "i = 0") (simp_all add: Number_def fl_int, simp add: fl_def)

lemma decimal_not_Nil: "decimal n \<noteq> []"
  by (induction n rule: decimal.induct) (subst decimal.simps, simp)

lemma decimal_bounds:
  "1 \<le> v \<Longrightarrow> 10 ^ (length (decimal v) - 1) \<le> v \<and> v < 10 ^ length (decimal v)"
proof (induction v rule: decimal.induct)
  case (1 v)
  show ?case
  proof (cases "v < 10")
    case True
    with "1.prems" show ?thesis by (simp add: decimal.simps [of v])
  next
    case False
    then have "1 \<le> v div 10" by simp
    with "1.IH" False
    have ih: "10 ^ (length (decimal (v div 10)) - 1) \<le> v div 10"
      "v div 10 < 10 ^ length (decimal (v div 10))"
      by simp_all
    have len: "length (decimal v) = Suc (length (decimal (v div 10)))"
      using False by (simp add: decimal.simps [of v])
    have pos: "0 < length (decimal (v div 10))"
      using decimal_not_Nil [of "v div 10"] by simp
    then have p: "(10::int) ^ length (decimal (v div 10))
        = 10 * 10 ^ (length (decimal (v div 10)) - 1)"
      by (cases "length (decimal (v div 10))") simp_all
    have d: "10 * (v div 10) \<le> v" "v < 10 * (v div 10) + 10" by simp_all
    have "10 ^ (length (decimal v) - 1) = (10::int) ^ length (decimal (v div 10))"
      by (simp add: len)
    moreover have "(10::int) ^ length (decimal v) = 10 * 10 ^ length (decimal (v div 10))"
      by (simp add: len)
    ultimately show ?thesis using ih d p by linarith
  qed
qed

lemma digit_0: "digit 0 = CHR ''0''"
  by (simp add: digit_def)

lemma decimal_shift: "0 < s \<Longrightarrow> decimal (s * 10 ^ j) = decimal s @ replicate j CHR ''0''"
proof (induction j)
  case 0
  then show ?case by simp
next
  case (Suc j)
  from Suc.prems have "0 < s * 10 ^ j" by simp
  then have big: "\<not> s * 10 ^ Suc j < 10" by simp
  have "decimal (s * 10 ^ Suc j)
      = decimal (s * 10 ^ Suc j div 10) @ [digit (s * 10 ^ Suc j mod 10)]"
    using big by (subst decimal.simps) simp
  also have "\<dots> = decimal (s * 10 ^ j) @ [CHR ''0'']" by (simp add: digit_0)
  also have "\<dots> = decimal s @ replicate (Suc j) CHR ''0''"
    using Suc by (simp add: replicate_append_same)
  finally show ?case .
qed


lemma decimal_length_le_16:
  assumes "1 \<le> v" and "v \<le> 2 ^ 53"
  shows "length (decimal v) \<le> 16"
proof -
  from decimal_bounds [OF assms(1)] assms(2)
  have "(10::int) ^ (length (decimal v) - 1) < 10 ^ 16" by simp
  then have "length (decimal v) - 1 < 16"
    by (rule power_less_imp_less_exp [rotated]) simp
  then show ?thesis by simp
qed

lemma digits_at_int:
  assumes v: "0 < v" "v \<le> 2 ^ 53" and k: "1 \<le> k" "k \<le> length (decimal v)"
  shows "digits_at (of_int v) (int (length (decimal v))) k =
    (if 10 ^ (length (decimal v) - k) dvd v then Some (v div 10 ^ (length (decimal v) - k))
     else None)"
proof -
  define L where "L = length (decimal v)"
  define p :: int where "p = 10 ^ (L - k)"
  define lo where "lo = v div p"
  have ppos: "0 < p" by (simp add: p_def)
  from v have v1: "1 \<le> v" by simp
  from decimal_bounds [OF v1] have vlo: "10 ^ (L - 1) \<le> v" by (simp add: L_def)
  have "p \<le> 10 ^ (L - 1)" unfolding p_def using k by (intro power_increasing) simp_all
  with vlo have pv: "p \<le> v" by linarith
  with ppos have "0 < v div p" by (simp add: pos_imp_zdiv_pos_iff)
  then have lopos: "1 \<le> lo" unfolding lo_def by simp
  have scale: "pow10 (int L - int k) = of_int p"
    using k by (simp add: pow10_def p_def L_def nat_diff_distrib')
  have fl_lo: "\<lfloor>(of_int v :: rat) / of_int p\<rfloor> = lo"
    by (simp add: lo_def floor_divide_of_int_eq)
  have lop: "lo * p \<le> v" unfolding lo_def using ppos
    by (metis div_mult_mod_eq le_add_same_cancel1 mult.commute pos_mod_sign)
  from lopos ppos have "0 < lo * p" by simp
  with lop v have "lo * p \<noteq> 0" "\<bar>lo * p\<bar> \<le> 2 ^ 53" by linarith+
  then have exact_lo: "fl (of_int (lo * p)) = Fin (of_int (lo * p))"
    by (rule fl_int)
  have ok_lo: "(fl (of_int lo * of_int p) = Fin (of_int v)) = (p dvd v)"
  proof -
    have "(lo * p = v) = (p dvd v)" unfolding lo_def using ppos
      by (metis dvd_div_mult_self dvd_triv_right)
    moreover have "(of_int lo * of_int p = (of_int v :: rat)) = (lo * p = v)"
      by (simp only: of_int_mult [symmetric] of_int_eq_iff)
    moreover have "fl (of_int lo * of_int p) = Fin (of_int lo * of_int p)"
      using exact_lo by (simp only: of_int_mult)
    ultimately show ?thesis by (simp only: number.inject)
  qed
  have above: "v < (lo + 1) * p" unfolding lo_def using ppos
    by (metis add.commute div_mult_mod_eq distrib_right mult.commute mult_1 add_less_cancel_left
        pos_mod_bound)
  have unfolded: "digits_at (of_int v) (int L) k =
      (if fl (of_int lo * of_int p) = Fin (of_int v)
          \<and> fl (of_int (lo + 1) * of_int p) = Fin (of_int v) then
         (if (of_int v :: rat) - of_int lo * of_int p < of_int (lo + 1) * of_int p - of_int v
          then Some lo
          else if of_int (lo + 1) * of_int p - of_int v < (of_int v :: rat) - of_int lo * of_int p
          then Some (lo + 1)
          else if even lo then Some lo else Some (lo + 1))
       else if fl (of_int lo * of_int p) = Fin (of_int v) then Some lo
       else if fl (of_int (lo + 1) * of_int p) = Fin (of_int v) then Some (lo + 1)
       else None)"
    by (simp only: digits_at_def Let_def scale fl_lo)
  have "digits_at (of_int v) (int L) k = (if p dvd v then Some lo else None)"
  proof (cases "p dvd v")
    case True
    then have "lo * p = v" unfolding lo_def by simp
    with above have "of_int (lo * p) = (of_int v :: rat)" "(of_int v :: rat) < of_int ((lo + 1) * p)"
      by (simp_all only: of_int_less_iff)
    then have closer:
      "(of_int v :: rat) - of_int lo * of_int p < of_int (lo + 1) * of_int p - of_int v"
      by (simp only: of_int_mult)
    show ?thesis
      by (simp only: unfolded ok_lo closer True if_True simp_thms if_cancel)
  next
    case False
    then have "lo * p \<noteq> v" unfolding lo_def by (metis dvd_triv_right)
    with lop have strict: "lo * p < v" by simp
    from False have "p \<noteq> 1" by auto
    then have jpos: "0 < L - k" unfolding p_def by (cases "L - k") simp_all
    define m where "m = (lo + 1) * 5 ^ (L - k)"
    have hi_eq: "(lo + 1) * p = m * 2 ^ (L - k)"
      by (simp add: m_def p_def power_mult_distrib [symmetric])
    have "(lo + 1) * p = lo * p + p" by (simp add: distrib_right)
    with strict pv v have "(lo + 1) * p < 2 ^ 54" by simp
    moreover have "2 * m \<le> m * 2 ^ (L - k)"
    proof -
      from jpos obtain j' where j': "L - k = Suc j'" by (cases "L - k") simp_all
      have "0 \<le> m" using lopos by (simp add: m_def)
      moreover have "(1::int) \<le> 2 ^ j'" by simp
      ultimately have "m * 1 \<le> m * 2 ^ j'" by (rule mult_left_mono [rotated])
      then show ?thesis by (simp add: j')
    qed
    ultimately have mlt: "m < 2 ^ 53" unfolding hi_eq by simp
    have mpos: "0 < m" using lopos by (simp add: m_def)
    have "L \<le> 16" unfolding L_def using v1 v(2) by (rule decimal_length_le_16)
    then have jle: "L - k \<le> 900" by simp
    have "0 \<le> (of_int (m * 2 ^ (L - k)) :: rat)" using mpos by simp
    then have "\<bar>of_int ((lo + 1) * p) :: rat\<bar> = of_int (m * 2 ^ (L - k))"
      by (simp only: hi_eq abs_of_nonneg)
    with mpos mlt jle have "fl (of_int ((lo + 1) * p)) = Fin (of_int ((lo + 1) * p))"
      by (rule fl_exact)
    moreover from above have "(lo + 1) * p \<noteq> v" by simp
    then have "(of_int ((lo + 1) * p) :: rat) \<noteq> of_int v"
      by (simp only: of_int_eq_iff not_False_eq_True)
    ultimately have ok_hi: "(fl (of_int (lo + 1) * of_int p) = Fin (of_int v)) = False"
      by (simp only: of_int_mult number.inject simp_thms)
    show ?thesis
      by (simp only: unfolded ok_lo ok_hi False if_False simp_thms)
  qed
  then show ?thesis by (simp only: L_def p_def lo_def)
qed


lemma shortest_int:
  assumes v: "0 < v" "v \<le> 2 ^ 53"
  shows "1 \<le> i \<Longrightarrow> i \<le> length (decimal v) \<Longrightarrow>
    \<exists>s k. shortest (of_int v) (int (length (decimal v))) [i..<18] = (s, k)
      \<and> k \<le> length (decimal v) \<and> s * 10 ^ (length (decimal v) - k) = v"
proof (induction "length (decimal v) - i" arbitrary: i)
  case 0
  then have i: "i = length (decimal v)" by simp
  from v have "length (decimal v) \<le> 16" by (intro decimal_length_le_16) simp_all
  then have cons: "[length (decimal v)..<18] = length (decimal v) # [Suc (length (decimal v))..<18]"
    by (simp add: upt_conv_Cons)
  from digits_at_int [OF v "0.prems"] i
  have "digits_at (of_int v) (int (length (decimal v))) (length (decimal v)) = Some v" by simp
  then show ?case unfolding i by (simp add: cons)
next
  case (Suc d)
  from v have "length (decimal v) \<le> 16" by (intro decimal_length_le_16) simp_all
  with Suc.prems have cons: "[i..<18] = i # [Suc i..<18]" by (simp add: upt_conv_Cons)
  note at = digits_at_int [OF v Suc.prems]
  show ?case
  proof (cases "10 ^ (length (decimal v) - i) dvd v")
    case True
    with at Suc.prems show ?thesis by (simp add: cons)
  next
    case False
    from Suc.hyps(2) have "d = length (decimal v) - Suc i" "1 \<le> Suc i"
      "Suc i \<le> length (decimal v)" by simp_all
    from Suc.hyps(1) [OF this] False at show ?thesis by (simp add: cons)
  qed
qed

lemma positive_toString_int:
  assumes v: "0 < v" "v \<le> 2 ^ 53"
  shows "positive_toString (of_int v) = decimal v"
proof -
  define L where "L = length (decimal v)"
  from v have v1: "1 \<le> v" by simp
  have Lpos: "1 \<le> L" using decimal_not_Nil [of v] by (cases "decimal v") (simp_all add: L_def)
  have L16: "L \<le> 16" unfolding L_def using v1 v(2) by (rule decimal_length_le_16)
  have n: "decimal_exponent (of_int v) = int L" using v1 by (simp add: decimal_exponent_def L_def)
  from shortest_int [OF v, of 1] Lpos
  obtain s k where sk: "shortest (of_int v) (int L) [1..<18] = (s, k)" "k \<le> L"
    "s * 10 ^ (L - k) = v"
    unfolding L_def by auto
  from sk(3) v(1) have "0 < s * 10 ^ (L - k)" by simp
  then have spos: "0 < s" by (simp add: zero_less_mult_iff)
  from decimal_bounds [OF v1] have "v < 10 ^ L" by (simp add: L_def)
  also have "\<dots> = 10 ^ k * (10::int) ^ (L - k)" using sk(2) by (simp add: power_add [symmetric])
  finally have "s * 10 ^ (L - k) < 10 ^ k * (10::int) ^ (L - k)" by (simp only: sk(3))
  then have "s < 10 ^ k" by simp
  then have ne: "s \<noteq> 10 ^ k" by simp
  have "layout s k (int L) = decimal s @ replicate (L - k) CHR ''0''"
    using sk(2) L16 by (simp add: layout_def zeros_def nat_diff_distrib')
  also have "\<dots> = decimal v" using decimal_shift [OF spos, of "L - k"] by (simp only: sk(3))
  finally show ?thesis using sk(1) ne by (simp add: positive_toString_def n Let_def)
qed

lemma Number_toString_int:
  assumes "\<bar>i\<bar> \<le> 2 ^ 53"
  shows "Number_toString (Number i) = integer_text i"
proof -
  consider "i = 0" | "0 < i" | "i < 0" by linarith
  then show ?thesis
  proof cases
    case 1
    then show ?thesis
      by (simp add: Number_exact Number_toString_def integer_text_def decimal.simps digit_def)
  next
    case 2
    with assms have "positive_toString (of_int i) = decimal i"
      by (intro positive_toString_int) simp_all
    with 2 assms show ?thesis
      by (simp add: Number_exact Number_toString_def integer_text_def)
  next
    case 3
    with assms have "positive_toString (of_int (- i)) = decimal (- i)"
      by (intro positive_toString_int) simp_all
    with 3 assms show ?thesis
      by (simp add: Number_exact Number_toString_def integer_text_def)
  qed
qed

lemma times_number_int:
  assumes "\<bar>m * 60\<bar> \<le> 2 ^ 53"
  shows "times_number (Number m) (Number 60) = Number (m * 60)"
proof -
  from assms have m: "\<bar>m\<bar> \<le> 2 ^ 53" by simp
  have x: "Number m = Fin (of_int m)" using m by (rule Number_exact)
  have y: "Number 60 = Fin 60" using Number_exact [of 60] by simp
  show ?thesis
  proof (cases "m = 0")
    case True
    then show ?thesis
      by (simp add: x y times_number_def is_zero_def is_infinite_def signed_zero_def
          negative_def Number_exact)
  next
    case False
    with assms have "fl (of_int (m * 60)) = Fin (of_int (m * 60))" by (intro fl_int) simp_all
    then have "fl (of_int m * 60) = Fin (of_int m * 60)" by simp
    with False assms show ?thesis
      by (simp add: x y times_number_def is_zero_def is_infinite_def Number_exact)
  qed
qed


lemma below_ten:
  assumes "(k::nat) < 10"
  obtains "k = 0" | "k = 1" | "k = 2" | "k = 3" | "k = 4"
    | "k = 5" | "k = 6" | "k = 7" | "k = 8" | "k = 9"
proof -
  from assms have "k = 0 \<or> k = 1 \<or> k = 2 \<or> k = 3 \<or> k = 4
      \<or> k = 5 \<or> k = 6 \<or> k = 7 \<or> k = 8 \<or> k = 9"
    by arith
  then show thesis using that by blast
qed

lemma digit_facts:
  "digit_value (digit n) = n mod 10 \<and> is_digit (digit n) \<and> digit n \<noteq> CHR ''-''"
proof -
  have "nat (n mod 10) < 10" by simp
  then have "digit_value (''0123456789'' ! nat (n mod 10)) = int (nat (n mod 10))
      \<and> is_digit (''0123456789'' ! nat (n mod 10))
      \<and> ''0123456789'' ! nat (n mod 10) \<noteq> CHR ''-''"
    by (rule below_ten) (simp_all add: digit_value_def is_digit_def)
  then show ?thesis by (simp add: digit_def)
qed

lemma digits_value_snoc: "digits_value (s @ [c]) = 10 * digits_value s + digit_value c"
  by (simp add: digits_value_def)

lemma digits_value_decimal: "0 \<le> n \<Longrightarrow> digits_value (decimal n) = n"
proof (induction n rule: decimal.induct)
  case (1 n)
  show ?case
  proof (cases "n < 10")
    case True
    with "1.prems" show ?thesis
      by (simp add: decimal.simps [of n] digits_value_def digit_facts)
  next
    case False
    with 1 show ?thesis
      by (simp add: decimal.simps [of n] digits_value_snoc digit_facts)
  qed
qed

lemma decimal_digits: "list_all is_digit (decimal n)"
proof (induction n rule: decimal.induct)
  case (1 n)
  then show ?case by (cases "n < 10") (simp_all add: decimal.simps [of n] digit_facts)
qed

lemma hd_decimal_not_minus: "hd (decimal n) \<noteq> CHR ''-''"
proof (induction n rule: decimal.induct)
  case (1 n)
  then show ?case
    by (cases "n < 10") (simp_all add: decimal.simps [of n] digit_facts decimal_not_Nil)
qed

lemma parse_int_integer_text: "parse_int (integer_text i) = i"
proof (cases "i < 0")
  case True
  then show ?thesis by (simp add: parse_int_def integer_text_def digits_value_decimal)
next
  case False
  obtain c r where cr: "decimal i = c # r"
    using decimal_not_Nil [of i] by (cases "decimal i") auto
  with hd_decimal_not_minus [of i] have "c \<noteq> CHR ''-''" by simp
  with False cr digits_value_decimal [of i] show ?thesis
    by (simp add: parse_int_def integer_text_def)
qed

lemma is_integer_text_integer_text: "is_integer_text (integer_text i)"
proof (cases "i < 0")
  case True
  then show ?thesis
    by (simp add: is_integer_text_def integer_text_def decimal_not_Nil decimal_digits)
next
  case False
  obtain c r where cr: "decimal i = c # r"
    using decimal_not_Nil [of i] by (cases "decimal i") auto
  with hd_decimal_not_minus [of i] have "c \<noteq> CHR ''-''" by simp
  with False cr decimal_digits [of i] show ?thesis
    by (simp add: is_integer_text_def integer_text_def)
qed

lemma floor_numeral_quotient:
  "\<lfloor>numeral a / numeral b :: rat\<rfloor> = numeral a div numeral b"
  using floor_divide_of_int_eq [of "numeral a" "numeral b", where ?'a = rat] by simp

lemma ilog2_samples: "ilog2 (15 / 2) = 2" "ilog2 (38 / 5) = 2" "ilog2 7 = 2" "ilog2 8 = 3"
  by (simp_all add: ilog2_def bits.simps floor_numeral_quotient)

lemma fl_samples:
  "fl (15 / 2) = Fin (15 / 2)" "fl (38 / 5) \<noteq> Fin (15 / 2)"
  "fl 7 \<noteq> Fin (15 / 2)" "fl 8 \<noteq> Fin (15 / 2)"
  by (simp_all add: fl_def ilog2_samples pow2_def round_half_even_def Let_def
      floor_numeral_quotient)

lemma digits_at_samples:
  "digits_at (15 / 2) 1 (Suc 0) = None" "digits_at (15 / 2) 1 (Suc (Suc 0)) = Some 75"
  using fl_samples by (simp_all add: digits_at_def pow10_def Let_def floor_numeral_quotient)

lemma seven_and_a_half: "Number_toString (times_number (Fin (1 / 8)) (Number 60)) = ''7.5''"
proof -
  have "Number 60 = Fin 60" using Number_exact [of 60] by simp
  then have "times_number (Fin (1 / 8)) (Number 60) = Fin (15 / 2)"
    by (simp add: times_number_def is_zero_def is_infinite_def fl_samples)
  moreover have "decimal_exponent (15 / 2) = 1"
    by (simp add: decimal_exponent_def decimal.simps floor_numeral_quotient)
  then have "positive_toString (15 / 2) = ''7.5''"
    by (simp add: positive_toString_def upt_rec digits_at_samples layout_def decimal.simps
        digit_def)
  ultimately show ?thesis by (simp add: Number_toString_def)
qed

lemma not_a_number: "Number_toString (times_number NaN (Number 60)) = ''NaN''"
  by (simp add: times_number_def Number_toString_def)

lemma one_eighth: "fl (1 / 8) = Fin (1 / 8)"
proof -
  have "ilog2 (1 / 8) = - 3" by (simp add: ilog2_def bits.simps pow2_def)
  then show ?thesis by (simp add: fl_def pow2_def round_half_even_def Let_def)
qed

lemmas auth_defs = authMiddleware_def no_token_provided_def invalid_token_def attach_user_def

lemmas sample_defs = incoming_def fresh_response_def env_live_def env_lookup_down_def
  sample_verify_def sample_findById_def with_user_def

lemmas token_eval = bearer_token_def at_index_def SECRET_KEY_def truthy_def

lemma split_on_not_Nil: "split_on c s \<noteq> []"
  by (induction s) (auto split: list.splits)

lemma hd_split_on: "hd (split_on c s) = takeWhile (\<lambda>a. a \<noteq> c) s"
  by (induction s) (auto simp: split_on_not_Nil split: list.splits)

lemma split_on_prefix: "c \<notin> set p \<Longrightarrow> split_on c (p @ c # s) = p # split_on c s"
  by (induction p) (auto split: list.splits)

lemma split_on_no_separator: "c \<notin> set s \<Longrightarrow> split_on c s = [s]"
  by (induction s) (auto split: list.splits)

lemma second_segment:
  assumes "c \<notin> set p"
  shows "at_index (split_on c (p @ c # s)) (Suc 0) = Some (takeWhile (\<lambda>a. a \<noteq> c) s)"
proof -
  obtain seg segs where "split_on c s = seg # segs"
    using split_on_not_Nil [of c s] by (cases "split_on c s") auto
  with hd_split_on [of c s] assms show ?thesis
    by (simp add: split_on_prefix at_index_def)
qed

section \<open>Rate-limit middleware: properties\<close>

text \<open>
  C3, as stated: when the decision has \<open>allowed = false\<close> the 429 body carries
  \<open>retryAfter: "<int> seconds"\<close>, the integer being the retry delay in minutes times 60.
  The delay is a JavaScript number.  For the delay 0.125, which is a double, the handler
  sends \<open>7.5 seconds\<close>; for \<open>NaN\<close> it sends \<open>NaN seconds\<close>.  Neither is the text of
  an integer.
\<close>

theorem rateLimiter_retryAfter_counterexample:
  "is_double (Fin (1 / 8))
   \<and> body (res (rateLimiter (deny_for (Fin (1 / 8))) (incoming None None))) =
       Some [(''error'', JStr ''Too Many Requests''),
             (''message'', JStr ''You have exceeded the rate limit. Please try again later.''),
             (''retryAfter'', JStr ''7.5 seconds'')]
   \<and> \<not> is_integer_text ''7.5''
   \<and> body (res (rateLimiter (deny_for NaN) (incoming None None))) =
       Some [(''error'', JStr ''Too Many Requests''),
             (''message'', JStr ''You have exceeded the rate limit. Please try again later.''),
             (''retryAfter'', JStr ''NaN seconds'')]
   \<and> \<not> is_integer_text ''NaN''"
  by (simp add: is_double_def one_eighth rateLimiter_def effect_defs too_many_requests_def
      spread_traceId_def
      deny_for_def incoming_def seven_and_a_half not_a_number is_integer_text_def is_digit_def)

text \<open>
  C3, amended.  When the use case returns a decision with \<open>allowed = false\<close>, the
  handler answers with status 429 and the body \<open>{error: "Too Many Requests", message,
  retryAfter: "<n> seconds"}\<close>, followed by \<open>traceId\<close> exactly when the request carries
  a trace identifier (a non-empty string); \<open><n>\<close> is the text of the number
  \<open>retryAfter * 60\<close>.  When the retry delay is a whole number \<open>m\<close> of minutes and
  \<open>m * 60\<close> is at most \<open>2^53\<close> in magnitude, \<open><n>\<close> is the integer \<open>m * 60\<close> in
  decimal digits.  Sending the body is the last thing the handler does, and \<open>next\<close> is
  not called, with or without an error.
\<close>

theorem rateLimiter_denied_429:
  assumes "checkRateLimit (req x) = Inr d" and "\<not> allowed d"
  shows "statusCode (res (rateLimiter checkRateLimit x)) = 429
    \<and> body (res (rateLimiter checkRateLimit x)) =
        Some ([(''error'', JStr ''Too Many Requests''),
               (''message'', JStr ''You have exceeded the rate limit. Please try again later.''),
               (''retryAfter'',
                JStr (Number_toString (times_number (retryAfter d) (Number 60)) @ '' seconds''))]
              @ (case traceId (req x) of
                   None \<Rightarrow> []
                 | Some t \<Rightarrow> if t = [] then [] else [(''traceId'', JStr t)]))
    \<and> (retryAfter d = Number m \<and> \<bar>m * 60\<bar> \<le> 2 ^ 53 \<longrightarrow>
          Number_toString (times_number (retryAfter d) (Number 60)) = integer_text (m * 60)
        \<and> is_integer_text (integer_text (m * 60))
        \<and> parse_int (integer_text (m * 60)) = m * 60)
    \<and> (\<exists>warning.
          performed x (rateLimiter checkRateLimit x) =
            [CheckRateLimitCalled,
             ConsoleLog [JBool False, JNum (remaining d)],
             SetHeader ''X-RateLimit-Remaining'' (Number_toString (remaining d)),
             warning, Status 429,
             Json (too_many_requests d (req x))]
          \<and> (\<exists>line meta. warning = LoggerWarn line meta))
    \<and> Next \<notin> set (performed x (rateLimiter checkRateLimit x))
    \<and> (\<forall>e. NextError e \<notin> set (performed x (rateLimiter checkRateLimit x)))"
proof -
  have whole: "Number_toString (times_number (retryAfter d) (Number 60)) = integer_text (m * 60)"
    if "retryAfter d = Number m" and "\<bar>m * 60\<bar> \<le> 2 ^ 53"
    using that by (simp only: times_number_int Number_toString_int)
  have response: "statusCode (res (rateLimiter checkRateLimit x)) = 429"
    "body (res (rateLimiter checkRateLimit x)) =
        Some ([(''error'', JStr ''Too Many Requests''),
               (''message'', JStr ''You have exceeded the rate limit. Please try again later.''),
               (''retryAfter'',
                JStr (Number_toString (times_number (retryAfter d) (Number 60)) @ '' seconds''))]
              @ (case traceId (req x) of
                   None \<Rightarrow> []
                 | Some t \<Rightarrow> if t = [] then [] else [(''traceId'', JStr t)]))"
    using assms
    by (simp_all add: rateLimiter_def effect_defs too_many_requests_def spread_traceId_def
        split: option.split)
  have effects: "performed x (rateLimiter checkRateLimit x) =
      [CheckRateLimitCalled,
       ConsoleLog [JBool False, JNum (remaining d)],
       SetHeader ''X-RateLimit-Remaining'' (Number_toString (remaining d)),
       LoggerWarn (''Rate limit exceeded for '' @ template (ip (req x)) @ '' on '' @ path (req x))
         (exceeded_meta d (req x)),
       Status 429,
       Json (too_many_requests d (req x))]"
    using assms by (simp add: rateLimiter_def effect_defs performed_def)
  from effects have quiet: "Next \<notin> set (performed x (rateLimiter checkRateLimit x))"
    "\<forall>e. NextError e \<notin> set (performed x (rateLimiter checkRateLimit x))"
    by simp_all
  have whole_text:
    "retryAfter d = Number m \<and> \<bar>m * 60\<bar> \<le> 2 ^ 53 \<longrightarrow>
       Number_toString (times_number (retryAfter d) (Number 60)) = integer_text (m * 60)
     \<and> is_integer_text (integer_text (m * 60))
     \<and> parse_int (integer_text (m * 60)) = m * 60"
    using whole is_integer_text_integer_text [of "m * 60"] parse_int_integer_text [of "m * 60"]
    by blast
  have logged: "\<exists>warning.
      performed x (rateLimiter checkRateLimit x) =
        [CheckRateLimitCalled,
         ConsoleLog [JBool False, JNum (remaining d)],
         SetHeader ''X-RateLimit-Remaining'' (Number_toString (remaining d)),
         warning, Status 429,
         Json (too_many_requests d (req x))]
      \<and> (\<exists>line meta. warning = LoggerWarn line meta)"
    using effects by blast
  show ?thesis
    by (intro conjI) (rule response whole_text logged quiet)+
qed

theorem rateLimiter_denied_429_witness:
  "deny_for (Number 2) (req (incoming None (Some ''t-1''))) =
     Inr \<lparr>allowed = False, remaining = Number 0, retryAfter = Number 2\<rparr>
   \<and> statusCode (res (rateLimiter (deny_for (Number 2)) (incoming None (Some ''t-1'')))) = 429
   \<and> body (res (rateLimiter (deny_for (Number 2)) (incoming None (Some ''t-1'')))) =
        Some [(''error'', JStr ''Too Many Requests''),
              (''message'', JStr ''You have exceeded the rate limit. Please try again later.''),
              (''retryAfter'', JStr ''120 seconds''),
              (''traceId'', JStr ''t-1'')]
   \<and> parse_int ''120'' = 2 * 60
   \<and> Next \<notin> set (performed (incoming None (Some ''t-1''))
                     (rateLimiter (deny_for (Number 2)) (incoming None (Some ''t-1''))))"
  using rateLimiter_denied_429 [where checkRateLimit = "deny_for (Number 2)"
      and x = "incoming None (Some ''t-1'')"
      and d = "\<lparr>allowed = False, remaining = Number 0, retryAfter = Number 2\<rparr>" and m = 2]
  by (simp add: deny_for_def incoming_def integer_text_def decimal.simps digit_def)

text \<open>
  C4.  When the use case throws, the handler logs the failure and calls \<open>next(error)\<close>
  with the value thrown, once: these are its only effects.  It does not call \<open>next()\<close>
  without an argument, and the response is left as it was (no header, no 429, no body).
\<close>

theorem rateLimiter_fault_forwarded:
  assumes "checkRateLimit (req x) = Inl e"
  shows "performed x (rateLimiter checkRateLimit x) =
           [CheckRateLimitCalled,
            LoggerError ''Rate limit check failed'' (failed_meta e (req x)),
            NextError e]
    \<and> length (filter (\<lambda>ev. ev = NextError e) (performed x (rateLimiter checkRateLimit x))) = 1
    \<and> Next \<notin> set (performed x (rateLimiter checkRateLimit x))
    \<and> res (rateLimiter checkRateLimit x) = res x
    \<and> req (rateLimiter checkRateLimit x) = req x"
  using assms by (simp add: rateLimiter_def effect_defs performed_def)

theorem rateLimiter_fault_forwarded_witness:
  "store_down (req (incoming None None)) = Inl (ErrorObject ''Redis connection lost'' None)
   \<and> performed (incoming None None) (rateLimiter store_down (incoming None None)) =
       [CheckRateLimitCalled,
        LoggerError ''Rate limit check failed''
          [(''error'', JStr ''Redis connection lost''), (''stack'', JUndefined),
           (''path'', JStr ''/auth/login''), (''method'', JStr ''POST''),
           (''ip'', JStr ''10.0.0.7''), (''traceId'', JUndefined)],
        NextError (ErrorObject ''Redis connection lost'' None)]
   \<and> res (rateLimiter store_down (incoming None None)) = fresh_response"
  using rateLimiter_fault_forwarded [of store_down "incoming None None"
      "ErrorObject ''Redis connection lost'' None"]
  by (simp add: store_down_def incoming_def failed_meta_def opt_json_def)

text \<open>
  C10.  Whenever the use case returns a decision, allowed or not, the handler sets the
  response header \<open>X-RateLimit-Remaining\<close> to the text of the decision's remaining count;
  for a whole count of magnitude at most \<open>2^53\<close> that text is the count in decimal
  digits.  It does so before the allow/deny branch: the only effects before it are the call
  of the use case and a console line, neither of which touches the response.  On the
  allowed branch the response differs from the incoming one in that header only; on the
  denied branch the 429 response carries the header too.
\<close>

theorem rateLimiter_remaining_header:
  assumes "checkRateLimit (req x) = Inr d"
  shows "headers (res (rateLimiter checkRateLimit x)) =
           (headers (res x))(''X-RateLimit-Remaining'' \<mapsto> Number_toString (remaining d))
    \<and> (remaining d = Number n \<and> \<bar>n\<bar> \<le> 2 ^ 53 \<longrightarrow>
          headers (res (rateLimiter checkRateLimit x)) ''X-RateLimit-Remaining''
            = Some (integer_text n)
        \<and> parse_int (integer_text n) = n)
    \<and> (\<exists>branch. performed x (rateLimiter checkRateLimit x) =
          [CheckRateLimitCalled,
           ConsoleLog [JBool (allowed d), JNum (remaining d)],
           SetHeader ''X-RateLimit-Remaining'' (Number_toString (remaining d))] @ branch
          \<and> branch =
              (if allowed d then [Next]
               else [LoggerWarn (''Rate limit exceeded for '' @ template (ip (req x))
                                   @ '' on '' @ path (req x)) (exceeded_meta d (req x)),
                     Status 429, Json (too_many_requests d (req x))]))
    \<and> res (rateLimiter checkRateLimit x) =
        (if allowed d
         then (res x)\<lparr>headers := (headers (res x))
                        (''X-RateLimit-Remaining'' \<mapsto> Number_toString (remaining d))\<rparr>
         else (res x)\<lparr>headers := (headers (res x))
                        (''X-RateLimit-Remaining'' \<mapsto> Number_toString (remaining d)),
                      statusCode := 429,
                      body := Some (too_many_requests d (req x))\<rparr>)"
proof -
  have header: "headers (res (rateLimiter checkRateLimit x)) =
      (headers (res x))(''X-RateLimit-Remaining'' \<mapsto> Number_toString (remaining d))"
    using assms by (cases "allowed d") (simp_all add: rateLimiter_def effect_defs Let_def)
  have whole: "headers (res (rateLimiter checkRateLimit x)) ''X-RateLimit-Remaining''
      = Some (integer_text n)"
    if "remaining d = Number n" and "\<bar>n\<bar> \<le> 2 ^ 53"
    using that by (simp only: header Number_toString_int) simp
  have rest: "(\<exists>branch. performed x (rateLimiter checkRateLimit x) =
          [CheckRateLimitCalled,
           ConsoleLog [JBool (allowed d), JNum (remaining d)],
           SetHeader ''X-RateLimit-Remaining'' (Number_toString (remaining d))] @ branch
          \<and> branch =
              (if allowed d then [Next]
               else [LoggerWarn (''Rate limit exceeded for '' @ template (ip (req x))
                                   @ '' on '' @ path (req x)) (exceeded_meta d (req x)),
                     Status 429, Json (too_many_requests d (req x))]))"
    "res (rateLimiter checkRateLimit x) =
        (if allowed d
         then (res x)\<lparr>headers := (headers (res x))
                        (''X-RateLimit-Remaining'' \<mapsto> Number_toString (remaining d))\<rparr>
         else (res x)\<lparr>headers := (headers (res x))
                        (''X-RateLimit-Remaining'' \<mapsto> Number_toString (remaining d)),
                      statusCode := 429,
                      body := Some (too_many_requests d (req x))\<rparr>)"
    using assms by (simp_all add: rateLimiter_def effect_defs performed_def)
  show ?thesis
    by (intro conjI impI)
      (use header whole rest in \<open>simp_all only: parse_int_integer_text\<close>)
qed

theorem rateLimiter_remaining_header_witness:
  "allow_with (Number 15) (req (incoming None None)) =
     Inr \<lparr>allowed = True, remaining = Number 15, retryAfter = Number 0\<rparr>
   \<and> deny_for (Number 1) (req (incoming None None)) =
     Inr \<lparr>allowed = False, remaining = Number 0, retryAfter = Number 1\<rparr>
   \<and> headers (res (rateLimiter (allow_with (Number 15)) (incoming None None)))
       ''X-RateLimit-Remaining'' = Some ''15''
   \<and> parse_int ''15'' = 15
   \<and> statusCode (res (rateLimiter (allow_with (Number 15)) (incoming None None))) = 200
   \<and> body (res (rateLimiter (allow_with (Number 15)) (incoming None None))) = None
   \<and> headers (res (rateLimiter (deny_for (Number 1)) (incoming None None)))
       ''X-RateLimit-Remaining'' = Some ''0''
   \<and> statusCode (res (rateLimiter (deny_for (Number 1)) (incoming None None))) = 429"
  using rateLimiter_remaining_header [where checkRateLimit = "allow_with (Number 15)"
      and x = "incoming None None"
      and d = "\<lparr>allowed = True, remaining = Number 15, retryAfter = Number 0\<rparr>" and n = 15]
    rateLimiter_remaining_header [where checkRateLimit = "deny_for (Number 1)"
      and x = "incoming None None"
      and d = "\<lparr>allowed = False, remaining = Number 0, retryAfter = Number 1\<rparr>" and n = 0]
  by (simp add: allow_with_def deny_for_def incoming_def fresh_response_def Number_toString_int
      integer_text_def decimal.simps digit_def)

section \<open>Authentication middleware: properties\<close>

text \<open>
  C1.  A request with the header \<open>Bearer tok-u1\<close>, a verifier that accepts the
  token and a repository whose \<open>findById\<close> throws: the \<open>catch\<close> clause that surrounds
  both the verification and the lookup answers 401 with the message \<open>Invalid token\<close>.
  The effects are the two calls and that response; \<open>next\<close> is not called with the
  error, so the error handler never sees the fault.
\<close>

theorem authMiddleware_lookup_fault_answered_401:
  "statusCode (res (authMiddleware env_lookup_down (incoming (Some ''Bearer tok-u1'') None))) = 401
   \<and> body (res (authMiddleware env_lookup_down (incoming (Some ''Bearer tok-u1'') None))) =
       Some [(''message'', JStr ''Invalid token'')]
   \<and> performed (incoming (Some ''Bearer tok-u1'') None)
        (authMiddleware env_lookup_down (incoming (Some ''Bearer tok-u1'') None)) =
       [JwtVerifyCalled ''tok-u1'' ''defaultSecret'', FindByIdCalled ''u1'', Status 401,
        Json [(''message'', JStr ''Invalid token'')]]"
  by (simp add: auth_defs effect_defs performed_def sample_defs token_eval)

text \<open>
  C2.  For a request that passes token verification, user lookup and the verification
  check, the user attached to the request takes its \<open>role\<close> from the decoded token and
  its \<open>id\<close>, \<open>email\<close> and \<open>isVerified\<close> from the live record; the handler then calls
  \<open>next\<close>.  The sample run is the scenario of a token saying \<open>admin\<close> for a user
  whose record says \<open>volunteer\<close>: the attached role is \<open>admin\<close>.
\<close>

theorem authMiddleware_role_from_token:
  assumes "bearer_token (req x) = Some t" and "t \<noteq> []"
    and "jwt_verify env t (SECRET_KEY env) = Inr d"
    and "findById env (decoded_id d) = Inr (Some u)"
    and "user_isVerified u"
  shows "user (req (authMiddleware env x)) =
           Some \<lparr>au_id = user_id u, au_email = user_email u,
                 au_role = decoded_role d, au_isVerified = user_isVerified u\<rparr>
    \<and> performed x (authMiddleware env x) =
        [JwtVerifyCalled t (SECRET_KEY env), FindByIdCalled (decoded_id d), Next]"
  using assms by (simp add: auth_defs effect_defs performed_def)

theorem authMiddleware_role_from_token_witness:
  "bearer_token (req (incoming (Some ''Bearer tok-u1'') None)) = Some ''tok-u1''
   \<and> jwt_verify env_live ''tok-u1'' (SECRET_KEY env_live) =
       Inr \<lparr>decoded_id = ''u1'', decoded_role = ''admin''\<rparr>
   \<and> map_option user_role (projr (findById env_live ''u1'')) = Some ''volunteer''
   \<and> user (req (authMiddleware env_live (incoming (Some ''Bearer tok-u1'') None))) =
       Some \<lparr>au_id = ''u1'', au_email = ''ana@example.org'', au_role = ''admin'',
             au_isVerified = True\<rparr>"
  using authMiddleware_role_from_token [of "incoming (Some ''Bearer tok-u1'') None" "''tok-u1''"
      env_live "\<lparr>decoded_id = ''u1'', decoded_role = ''admin''\<rparr>"
      "\<lparr>user_id = ''u1'', user_email = ''ana@example.org'',
        user_role = ''volunteer'', user_isVerified = True\<rparr>"]
  by (simp add: bearer_token_def incoming_def at_index_def env_live_def sample_verify_def
      sample_findById_def SECRET_KEY_def truthy_def)

text \<open>
  C6.  For a request whose token verifies: when the lookup finds no user the handler
  answers 401 \<open>User not found\<close>; when it finds a user whose record is not verified it
  answers 403 with the verification message; in both cases \<open>next\<close> is not called and
  the request is unchanged.  When the user exists and is verified the handler calls
  \<open>next\<close>, the response is untouched, and the attached user has \<open>isVerified\<close> true.
\<close>

theorem authMiddleware_after_valid_token:
  assumes "bearer_token (req x) = Some t" and "t \<noteq> []"
    and "jwt_verify env t (SECRET_KEY env) = Inr d"
  shows "(findById env (decoded_id d) = Inr None \<longrightarrow>
            statusCode (res (authMiddleware env x)) = 401
          \<and> body (res (authMiddleware env x)) = Some [(''message'', JStr ''User not found'')]
          \<and> Next \<notin> set (performed x (authMiddleware env x))
          \<and> req (authMiddleware env x) = req x)
    \<and> (\<forall>u. findById env (decoded_id d) = Inr (Some u) \<and> \<not> user_isVerified u \<longrightarrow>
            statusCode (res (authMiddleware env x)) = 403
          \<and> body (res (authMiddleware env x)) =
              Some [(''message'',
                     JStr ''Email not verified. Please verify your email to proceed.'')]
          \<and> Next \<notin> set (performed x (authMiddleware env x))
          \<and> req (authMiddleware env x) = req x)
    \<and> (\<forall>u. findById env (decoded_id d) = Inr (Some u) \<and> user_isVerified u \<longrightarrow>
            performed x (authMiddleware env x) =
              [JwtVerifyCalled t (SECRET_KEY env), FindByIdCalled (decoded_id d), Next]
          \<and> (\<exists>a. user (req (authMiddleware env x)) = Some a \<and> au_isVerified a)
          \<and> res (authMiddleware env x) = res x)"
  using assms by (simp add: auth_defs effect_defs performed_def)

theorem authMiddleware_after_valid_token_witness:
  "statusCode (res (authMiddleware env_live (incoming (Some ''Bearer tok-u3'') None))) = 401
   \<and> body (res (authMiddleware env_live (incoming (Some ''Bearer tok-u3'') None))) =
       Some [(''message'', JStr ''User not found'')]
   \<and> statusCode (res (authMiddleware env_live (incoming (Some ''Bearer tok-u2'') None))) = 403
   \<and> body (res (authMiddleware env_live (incoming (Some ''Bearer tok-u2'') None))) =
       Some [(''message'', JStr ''Email not verified. Please verify your email to proceed.'')]
   \<and> performed (incoming (Some ''Bearer tok-u1'') None)
        (authMiddleware env_live (incoming (Some ''Bearer tok-u1'') None)) =
       [JwtVerifyCalled ''tok-u1'' ''defaultSecret'', FindByIdCalled ''u1'', Next]
   \<and> (\<exists>a. user (req (authMiddleware env_live (incoming (Some ''Bearer tok-u1'') None))) = Some a
          \<and> au_isVerified a)"
  using
    authMiddleware_after_valid_token [of "incoming (Some ''Bearer tok-u3'') None" "''tok-u3''"
      env_live "\<lparr>decoded_id = ''u3'', decoded_role = ''volunteer''\<rparr>"]
    authMiddleware_after_valid_token [of "incoming (Some ''Bearer tok-u2'') None" "''tok-u2''"
      env_live "\<lparr>decoded_id = ''u2'', decoded_role = ''volunteer''\<rparr>"]
    authMiddleware_after_valid_token [of "incoming (Some ''Bearer tok-u1'') None" "''tok-u1''"
      env_live "\<lparr>decoded_id = ''u1'', decoded_role = ''admin''\<rparr>"]
  by (simp add: sample_defs token_eval)

text \<open>
  C7.  For a request whose extracted token is rejected by the verifier, whatever the value
  thrown, the handler answers 401 \<open>Invalid token\<close>; the lookup is not reached, so the
  outcome is the same for every repository, whether or not it holds a user with that
  id.
\<close>

theorem authMiddleware_invalid_token:
  assumes "bearer_token (req x) = Some t" and "t \<noteq> []"
    and "jwt_verify env t (SECRET_KEY env) = Inl e"
  shows "statusCode (res (authMiddleware env x)) = 401
    \<and> body (res (authMiddleware env x)) = Some [(''message'', JStr ''Invalid token'')]
    \<and> performed x (authMiddleware env x) =
        [JwtVerifyCalled t (SECRET_KEY env), Status 401,
         Json [(''message'', JStr ''Invalid token'')]]
    \<and> (\<forall>lookup. authMiddleware (env\<lparr>findById := lookup\<rparr>) x = authMiddleware env x)"
proof -
  have "SECRET_KEY (env\<lparr>findById := lookup\<rparr>) = SECRET_KEY env" for lookup
    by (simp add: SECRET_KEY_def)
  with assms show ?thesis
    by (simp add: auth_defs effect_defs performed_def)
qed

theorem authMiddleware_invalid_token_witness:
  "bearer_token (req (incoming (Some ''Bearer expired'') None)) = Some ''expired''
   \<and> jwt_verify env_live ''expired'' (SECRET_KEY env_live) =
       Inl (ErrorObject ''jwt malformed'' None)
   \<and> statusCode (res (authMiddleware env_live (incoming (Some ''Bearer expired'') None))) = 401
   \<and> body (res (authMiddleware env_live (incoming (Some ''Bearer expired'') None))) =
       Some [(''message'', JStr ''Invalid token'')]
   \<and> authMiddleware (env_live\<lparr>findById := (\<lambda>uid. Inr None)\<rparr>)
        (incoming (Some ''Bearer expired'') None) =
       authMiddleware env_live (incoming (Some ''Bearer expired'') None)"
  using authMiddleware_invalid_token [of "incoming (Some ''Bearer expired'') None" "''expired''"
      env_live "ErrorObject ''jwt malformed'' None"]
  by (simp add: sample_defs token_eval)

text \<open>
  C8.  For a request without an \<open>Authorization\<close> header the handler answers 401
  \<open>No token provided\<close>; these two response calls are its only effects, so neither the
  verifier nor the user lookup runs, and the outcome does not depend on them.
\<close>

theorem authMiddleware_no_header:
  assumes "authorization (req x) = None"
  shows "statusCode (res (authMiddleware env x)) = 401
    \<and> body (res (authMiddleware env x)) = Some [(''message'', JStr ''No token provided'')]
    \<and> performed x (authMiddleware env x) =
        [Status 401, Json [(''message'', JStr ''No token provided'')]]
    \<and> (\<forall>uid. FindByIdCalled uid \<notin> set (performed x (authMiddleware env x)))
    \<and> (\<forall>env'. authMiddleware env' x = authMiddleware env x)"
  using assms by (simp add: auth_defs effect_defs performed_def bearer_token_def)

theorem authMiddleware_no_header_witness:
  "authorization (req (incoming None None)) = None
   \<and> statusCode (res (authMiddleware env_live (incoming None None))) = 401
   \<and> body (res (authMiddleware env_live (incoming None None))) =
       Some [(''message'', JStr ''No token provided'')]
   \<and> performed (incoming None None) (authMiddleware env_live (incoming None None)) =
       [Status 401, Json [(''message'', JStr ''No token provided'')]]"
  using authMiddleware_no_header [of "incoming None None" env_live]
  by (simp add: sample_defs)

text \<open>
  C9, as stated: the token is the substring after the first space of the header.  For
  the header \<open>Bearer tok-u1 x\<close> that substring is \<open>tok-u1 x\<close>, while the handler
  verifies \<open>tok-u1\<close> and lets the request through.
\<close>

theorem authMiddleware_token_counterexample:
  "bearer_token (req (incoming (Some ''Bearer tok-u1 x'') None)) = Some ''tok-u1''
   \<and> after_first_space ''Bearer tok-u1 x'' = Some ''tok-u1 x''
   \<and> bearer_token (req (incoming (Some ''Bearer tok-u1 x'') None))
       \<noteq> after_first_space ''Bearer tok-u1 x''
   \<and> performed (incoming (Some ''Bearer tok-u1 x'') None)
        (authMiddleware env_live (incoming (Some ''Bearer tok-u1 x'') None)) =
       [JwtVerifyCalled ''tok-u1'' ''defaultSecret'', FindByIdCalled ''u1'', Next]"
  by (simp add: auth_defs effect_defs performed_def sample_defs token_eval
      after_first_space_def)

text \<open>
  C9, amended.  The token is the second space-separated segment of the header: for a
  header made of a scheme word without a space, one space and a remainder, it is the
  remainder up to its next space, whatever the scheme word.  When that segment is not
  empty, the first effect of the handler is the verification of that segment; when it is
  empty, and when the header holds no space at all, the handler answers 401
  \<open>No token provided\<close> and does nothing else.
\<close>

theorem authMiddleware_second_segment:
  "(CHR '' '' \<notin> set scheme \<and> authorization (req x) = Some (scheme @ '' '' @ rest) \<longrightarrow>
       bearer_token (req x) = Some (takeWhile (\<lambda>c. c \<noteq> CHR '' '') rest)
     \<and> (takeWhile (\<lambda>c. c \<noteq> CHR '' '') rest \<noteq> [] \<longrightarrow>
          (\<exists>later. performed x (authMiddleware env x) =
             JwtVerifyCalled (takeWhile (\<lambda>c. c \<noteq> CHR '' '') rest) (SECRET_KEY env) # later))
     \<and> (takeWhile (\<lambda>c. c \<noteq> CHR '' '') rest = [] \<longrightarrow>
          statusCode (res (authMiddleware env x)) = 401
        \<and> body (res (authMiddleware env x)) = Some [(''message'', JStr ''No token provided'')]
        \<and> performed x (authMiddleware env x) =
            [Status 401, Json [(''message'', JStr ''No token provided'')]]))
   \<and> (CHR '' '' \<notin> set h \<and> authorization (req x) = Some h \<longrightarrow>
       bearer_token (req x) = None
     \<and> statusCode (res (authMiddleware env x)) = 401
     \<and> body (res (authMiddleware env x)) = Some [(''message'', JStr ''No token provided'')]
     \<and> performed x (authMiddleware env x) =
         [Status 401, Json [(''message'', JStr ''No token provided'')]])"
proof (intro conjI impI; (elim conjE)?)
  assume a: "CHR '' '' \<notin> set scheme" "authorization (req x) = Some (scheme @ '' '' @ rest)"
  then show tok: "bearer_token (req x) = Some (takeWhile (\<lambda>c. c \<noteq> CHR '' '') rest)"
    by (simp add: bearer_token_def second_segment)
  {
    assume "takeWhile (\<lambda>c. c \<noteq> CHR '' '') rest \<noteq> []"
    with tok show "\<exists>later. performed x (authMiddleware env x) =
        JwtVerifyCalled (takeWhile (\<lambda>c. c \<noteq> CHR '' '') rest) (SECRET_KEY env) # later"
      by (auto simp add: auth_defs effect_defs performed_def Let_def
          split: sum.split option.split)
  }
  {
    assume "takeWhile (\<lambda>c. c \<noteq> CHR '' '') rest = []"
    with tok show "statusCode (res (authMiddleware env x)) = 401"
      and "body (res (authMiddleware env x)) = Some [(''message'', JStr ''No token provided'')]"
      and "performed x (authMiddleware env x) =
            [Status 401, Json [(''message'', JStr ''No token provided'')]]"
      by (simp_all add: auth_defs effect_defs performed_def)
  }
next
  assume "CHR '' '' \<notin> set h" "authorization (req x) = Some h"
  then have none: "bearer_token (req x) = None"
    by (simp add: bearer_token_def split_on_no_separator at_index_def)
  then show "bearer_token (req x) = None" .
  from none show "statusCode (res (authMiddleware env x)) = 401"
    and "body (res (authMiddleware env x)) = Some [(''message'', JStr ''No token provided'')]"
    and "performed x (authMiddleware env x) =
          [Status 401, Json [(''message'', JStr ''No token provided'')]]"
    by (simp_all add: auth_defs effect_defs performed_def)
qed

theorem authMiddleware_second_segment_witness:
  "bearer_token (req (incoming (Some ''Basic tok-u1 x'') None)) = Some ''tok-u1''
   \<and> (\<exists>later. performed (incoming (Some ''Basic tok-u1 x'') None)
         (authMiddleware env_live (incoming (Some ''Basic tok-u1 x'') None)) =
       JwtVerifyCalled ''tok-u1'' ''defaultSecret'' # later)
   \<and> bearer_token (req (incoming (Some ''Bearer  tok-u1'') None)) = Some ''''
   \<and> body (res (authMiddleware env_live (incoming (Some ''Bearer  tok-u1'') None))) =
       Some [(''message'', JStr ''No token provided'')]
   \<and> bearer_token (req (incoming (Some ''tok-u1'') None)) = None
   \<and> statusCode (res (authMiddleware env_live (incoming (Some ''tok-u1'') None))) = 401
   \<and> body (res (authMiddleware env_live (incoming (Some ''tok-u1'') None))) =
       Some [(''message'', JStr ''No token provided'')]"
  using
    authMiddleware_second_segment [where scheme = "''Basic''" and rest = "''tok-u1 x''"
      and x = "incoming (Some ''Basic tok-u1 x'') None" and env = env_live and h = "''''"]
    authMiddleware_second_segment [where scheme = "''Bearer''" and rest = "'' tok-u1''"
      and x = "incoming (Some ''Bearer  tok-u1'') None" and env = env_live and h = "''''"]
    authMiddleware_second_segment [where scheme = "''''" and rest = "''''"
      and x = "incoming (Some ''tok-u1'') None" and env = env_live and h = "''tok-u1''"]
  by (simp add: sample_defs SECRET_KEY_def truthy_def)


section \<open>Verified-email gate: properties\<close>

text \<open>
  C5, as stated: without an authenticated user the gate answers 401 with the message
  \<open>Authentication required\<close>.  The message it sends is
  \<open>Unauthorized - Authentication required\<close>.
\<close>

theorem requireVerifiedEmail_message_counterexample:
  "statusCode (res (requireVerifiedEmail env_live (incoming None None))) = 401
   \<and> body (res (requireVerifiedEmail env_live (incoming None None))) =
       Some [(''message'', JStr ''Unauthorized - Authentication required'')]
   \<and> body (res (requireVerifiedEmail env_live (incoming None None)))
       \<noteq> Some [(''message'', JStr ''Authentication required'')]"
  by (simp add: requireVerifiedEmail_def effect_defs sample_defs)

text \<open>
  C5, amended.  (1) Without an authenticated user on the request the gate answers 401
  with the message \<open>Unauthorized - Authentication required\<close> and does nothing else.
  (2) Otherwise its first effect is the call of \<open>isUserVerified\<close> with the user's id, and
  the response does not depend on the \<open>isVerified\<close> flag cached on the request; when
  the call returns false the gate answers 403 with \<open>verificationNeeded: true\<close> and
  does not call \<open>next\<close>.  (3) When the call throws, the gate answers 500 with the message
  \<open>Internal server error\<close>, followed by \<open>traceId\<close> when the request has a non-empty
  one; it does not call \<open>next\<close> and leaves the request as it was.
\<close>

theorem requireVerifiedEmail_gate:
  "(user (req x) = None \<longrightarrow>
       statusCode (res (requireVerifiedEmail env x)) = 401
     \<and> body (res (requireVerifiedEmail env x)) =
         Some [(''message'', JStr ''Unauthorized - Authentication required'')]
     \<and> performed x (requireVerifiedEmail env x) =
         [Status 401, Json [(''message'', JStr ''Unauthorized - Authentication required'')]])
   \<and> (\<forall>u. user (req x) = Some u \<longrightarrow>
       (\<exists>later. performed x (requireVerifiedEmail env x) = IsUserVerifiedCalled (au_id u) # later)
     \<and> (\<forall>cached. res (requireVerifiedEmail env (attach_user (u\<lparr>au_isVerified := cached\<rparr>) x))
                  = res (requireVerifiedEmail env x))
     \<and> (isUserVerified env (au_id u) = Inr False \<longrightarrow>
          statusCode (res (requireVerifiedEmail env x)) = 403
        \<and> body (res (requireVerifiedEmail env x)) =
            Some [(''message'', JStr ''Forbidden - Email verification required''),
                  (''verificationNeeded'', JBool True)]
        \<and> Next \<notin> set (performed x (requireVerifiedEmail env x)))
     \<and> (\<forall>e. isUserVerified env (au_id u) = Inl e \<longrightarrow>
          statusCode (res (requireVerifiedEmail env x)) = 500
        \<and> body (res (requireVerifiedEmail env x)) =
            Some ([(''message'', JStr ''Internal server error'')]
                  @ (case traceId (req x) of
                       None \<Rightarrow> []
                     | Some t \<Rightarrow> if t = [] then [] else [(''traceId'', JStr t)]))
        \<and> Next \<notin> set (performed x (requireVerifiedEmail env x))
        \<and> req (requireVerifiedEmail env x) = req x))"
  by (auto simp add: requireVerifiedEmail_def attach_user_def effect_defs performed_def
      spread_traceId_def Let_def split: option.split sum.split)

theorem requireVerifiedEmail_gate_witness:
  "user (req (incoming None None)) = None
   \<and> statusCode (res (requireVerifiedEmail env_live (incoming None None))) = 401
   \<and> isUserVerified env_live ''u2'' = Inr False
   \<and> statusCode (res (requireVerifiedEmail env_live
        (with_user \<lparr>au_id = ''u2'', au_email = ''luis@example.org'', au_role = ''volunteer'',
                    au_isVerified = True\<rparr> None))) = 403
   \<and> body (res (requireVerifiedEmail env_live
        (with_user \<lparr>au_id = ''u2'', au_email = ''luis@example.org'', au_role = ''volunteer'',
                    au_isVerified = True\<rparr> None))) =
       Some [(''message'', JStr ''Forbidden - Email verification required''),
             (''verificationNeeded'', JBool True)]
   \<and> isUserVerified env_lookup_down ''u1'' = Inl (ErrorObject ''database unreachable'' None)
   \<and> statusCode (res (requireVerifiedEmail env_lookup_down
        (with_user \<lparr>au_id = ''u1'', au_email = ''ana@example.org'', au_role = ''admin'',
                    au_isVerified = True\<rparr> (Some ''t-9'')))) = 500
   \<and> body (res (requireVerifiedEmail env_lookup_down
        (with_user \<lparr>au_id = ''u1'', au_email = ''ana@example.org'', au_role = ''admin'',
                    au_isVerified = True\<rparr> (Some ''t-9'')))) =
       Some [(''message'', JStr ''Internal server error''), (''traceId'', JStr ''t-9'')]"
  using
    requireVerifiedEmail_gate [of "incoming None None" env_live]
    requireVerifiedEmail_gate [of
      "with_user \<lparr>au_id = ''u2'', au_email = ''luis@example.org'', au_role = ''volunteer'',
                  au_isVerified = True\<rparr> None" env_live]
    requireVerifiedEmail_gate [of
      "with_user \<lparr>au_id = ''u1'', au_email = ''ana@example.org'', au_role = ''admin'',
                  au_isVerified = True\<rparr> (Some ''t-9'')" env_lookup_down]
  by (simp add: sample_defs attach_user_def)


end
